theory Spec2Isabelle
  imports Main "HOL-Library.Word"
begin

section \<open>JavaScript values seen by the client\<close>

text \<open>
  A JavaScript string is a sequence of UTF-16 code units. Literals of the source are
  written with \<open>js\<close>, which maps each character of an Isabelle literal to its code unit.
\<close>

type_synonym jsstring = "16 word list"

type_synonym bytes = "8 word list"

definition js :: "string \<Rightarrow> jsstring" where
  "js s = map of_char s"

text \<open>
  The result of \<open>JSON.parse\<close> and of \<open>response.json()\<close>. Numbers are IEEE doubles in
  the source; the model keeps them abstract (type \<open>'n\<close>) and asks the platform for the
  two things the client observes about a number: whether it is truthy and how it prints.
  An object is the list of its own properties, each key once.
\<close>

datatype 'n json =
    JNull
  | JBool bool
  | JNum 'n
  | JStr jsstring
  | JArr "'n json list"
  | JObj "(jsstring \<times> 'n json) list"

text \<open>
  What the browser provides and the repository only calls: \<open>JSON.parse\<close> (\<open>None\<close> when it
  throws), the two observations on numbers, and \<open>TextDecoder\<close> (a fresh decoder, and
  \<open>decode(value, {stream: true})\<close>, which returns the text decoded so far and the decoder's
  new internal state).
\<close>

record ('n, 'd) platform =
  json_parse :: "jsstring \<Rightarrow> 'n json option"
  num_truthy :: "'n \<Rightarrow> bool"
  num_to_string :: "'n \<Rightarrow> jsstring"
  new_decoder :: "'d"
  decode :: "'d \<Rightarrow> bytes \<Rightarrow> jsstring \<times> 'd"

text \<open>Property read \<^verbatim>\<open>v.key\<close> on a value that is not null; \<open>None\<close> is \<open>undefined\<close>.\<close>

fun get_prop :: "'n json \<Rightarrow> jsstring \<Rightarrow> 'n json option" where
  "get_prop (JObj kvs) k = map_of kvs k"
| "get_prop _ k = None"

text \<open>Truthiness of a value that may be \<open>undefined\<close>.\<close>

fun truthy :: "('n, 'd) platform \<Rightarrow> 'n json option \<Rightarrow> bool" where
  "truthy P None = False"
| "truthy P (Some JNull) = False"
| "truthy P (Some (JBool b)) = b"
| "truthy P (Some (JNum n)) = num_truthy P n"
| "truthy P (Some (JStr s)) = (s \<noteq> [])"
| "truthy P (Some (JArr xs)) = True"
| "truthy P (Some (JObj kvs)) = True"

fun join_comma :: "jsstring list \<Rightarrow> jsstring" where
  "join_comma [] = []"
| "join_comma [s] = s"
| "join_comma (s # t # ss) = s @ js '','' @ join_comma (t # ss)"

text \<open>
  \<open>ToString\<close> of a parsed value, as string concatenation and \<open>localStorage.setItem\<close> apply
  it: an array prints its elements joined by commas, a null element printing as the
  empty string, and an object prints as \<^verbatim>\<open>[object Object]\<close> (an object that carries its
  own \<^verbatim>\<open>toString\<close> or \<^verbatim>\<open>valueOf\<close> entry is outside the model).
\<close>

fun to_str :: "('n, 'd) platform \<Rightarrow> 'n json \<Rightarrow> jsstring" where
  "to_str P JNull = js ''null''"
| "to_str P (JBool b) = (if b then js ''true'' else js ''false'')"
| "to_str P (JNum n) = num_to_string P n"
| "to_str P (JStr s) = s"
| "to_str P (JArr xs) = join_comma (map (\<lambda>x. if x = JNull then [] else to_str P x) xs)"
| "to_str P (JObj kvs) = js ''[object Object]''"

definition to_str_opt :: "('n, 'd) platform \<Rightarrow> 'n json option \<Rightarrow> jsstring" where
  "to_str_opt P v = (case v of None \<Rightarrow> js ''undefined'' | Some j \<Rightarrow> to_str P j)"

section \<open>The network and the credential store\<close>

text \<open>
  \<open>reader.read()\<close> yields a chunk of bytes or rejects (transport failure, abort); the end of
  the list is \<open>done\<close>.
\<close>

datatype read = Chunk bytes | ReadError

text \<open>
  The outcome of \<open>fetch\<close>: the promise rejects, or a response arrives with its status, its
  body read as JSON (\<open>None\<close> when \<open>response.json()\<close> rejects) and its body read as a stream
  (\<open>None\<close> when \<open>response.body\<close> is null).
\<close>

datatype 'n response =
    Rejected
  | Response (status: nat) (json_body: "'n json option") (body: "read list option")

text \<open>
  The requests the modelled code issues: \<open>GET /auth/me\<close> with its bearer token,
  \<open>POST /auth/refresh\<close> with the refresh token, \<open>POST /stream\<close> with the optional
  authorization header, the thread and the message (the generation options copied from
  the chat settings travel in the same body and decide nothing).
\<close>

datatype request =
    GetMe jsstring
  | PostRefresh jsstring
  | PostStream "jsstring option" jsstring jsstring

text \<open>The server answers a request knowing the requests it has received before.\<close>

type_synonym 'n server = "request list \<Rightarrow> request \<Rightarrow> 'n response"

text \<open>\<open>localStorage\<close> under the two keys of \<open>AuthService\<close>, and the requests sent so far.\<close>

record world =
  access_token :: "jsstring option"
  refresh_token :: "jsstring option"
  requests :: "request list"

definition fetch :: "'n server \<Rightarrow> request \<Rightarrow> world \<Rightarrow> 'n response \<times> world" where
  "fetch srv req w = (srv (requests w) req, w\<lparr>requests := requests w @ [req]\<rparr>)"

definition ok :: "nat \<Rightarrow> bool" where
  "ok st = (200 \<le> st \<and> st \<le> 299)"

section \<open>AuthService\<close>

definition setTokens :: "('n, 'd) platform \<Rightarrow> 'n json \<Rightarrow> world \<Rightarrow> world" where
  "setTokens P token w =
     w\<lparr>access_token := Some (to_str_opt P (get_prop token (js ''access_token''))),
       refresh_token := Some (to_str_opt P (get_prop token (js ''refresh_token'')))\<rparr>"

definition getToken :: "world \<Rightarrow> jsstring option" where
  "getToken w = access_token w"

definition getRefreshToken :: "world \<Rightarrow> jsstring option" where
  "getRefreshToken w = refresh_token w"

definition clearTokens :: "world \<Rightarrow> world" where
  "clearTokens w = w\<lparr>access_token := None, refresh_token := None\<rparr>"

text \<open>\<open>!token\<close>: a missing item and the empty string are both falsy.\<close>

definition falsy_str :: "jsstring option \<Rightarrow> bool" where
  "falsy_str t = (t = None \<or> t = Some [])"

definition getAuthHeader :: "world \<Rightarrow> jsstring option" where
  "getAuthHeader w = (if falsy_str (getToken w) then None else getToken w)"

text \<open>
  \<open>refreshAccessToken\<close>: everything after the check of the refresh token runs inside
  \<open>try\<close>, so a rejected fetch, a body that is not JSON and the property read on a null
  body all end in the \<open>catch\<close> branch.
\<close>

definition refreshAccessToken ::
    "('n, 'd) platform \<Rightarrow> 'n server \<Rightarrow> world \<Rightarrow> bool \<times> world" where
  "refreshAccessToken P srv w =
     (if falsy_str (getRefreshToken w) then (False, w)
      else
        (case fetch srv (PostRefresh (the (getRefreshToken w))) w of
           (Rejected, w1) \<Rightarrow> (False, clearTokens w1)
         | (Response st j b, w1) \<Rightarrow>
             if \<not> ok st then (False, clearTokens w1)
             else
               (case j of
                  None \<Rightarrow> (False, clearTokens w1)
                | Some JNull \<Rightarrow> (False, clearTokens w1)
                | Some token \<Rightarrow> (True, setTokens P token w1))))"

datatype error =
    NoAuthenticationToken
  | FailedToFetchUser
  | FetchRejected
  | JsonRejected
  | FailedToStartStreaming
  | NoResponseBody
  | ReadRejected

datatype 'a outcome = Returned 'a | Thrown error

text \<open>
  \<open>getCurrentUser\<close> calls itself after a successful refresh, with nothing that bounds the
  depth: the model is a partial function, \<open>None\<close> standing for a call that never settles.
\<close>

partial_function (option) getCurrentUser ::
    "('n, 'd) platform \<Rightarrow> 'n server \<Rightarrow> world \<Rightarrow> ('n json outcome \<times> world) option" where
  "getCurrentUser P srv w =
     (if falsy_str (getToken w) then Some (Thrown NoAuthenticationToken, w)
      else
        (case fetch srv (GetMe (the (getToken w))) w of
           (Rejected, w1) \<Rightarrow> Some (Thrown FetchRejected, w1)
         | (Response st j b, w1) \<Rightarrow>
             if \<not> ok st then
               (if st = 401 then
                  (case refreshAccessToken P srv w1 of
                     (refreshed, w2) \<Rightarrow>
                       if refreshed then getCurrentUser P srv w2
                       else Some (Thrown FailedToFetchUser, w2))
                else Some (Thrown FailedToFetchUser, w1))
             else
               (case j of
                  None \<Rightarrow> Some (Thrown JsonRejected, w1)
                | Some user \<Rightarrow> Some (Returned user, w1))))"

section \<open>ChatWindow\<close>

datatype sender = Human | Ai

record message =
  msg_id :: jsstring
  msg_type :: sender
  content :: jsstring

text \<open>
  The state of the component: the transcript and the two flags. \<open>applied\<close> records, in
  call order, the text of every content-appending \<open>setMessages\<close> update the streaming
  path has issued (the deltas it has emitted); the source keeps no such list.
\<close>

record chat =
  messages :: "message list"
  isStreaming :: bool
  isWaitingForResponse :: bool
  applied :: "jsstring list"

definition startsWith :: "jsstring \<Rightarrow> jsstring \<Rightarrow> bool" where
  "startsWith s p = (take (length p) s = p)"

definition slice_str :: "nat \<Rightarrow> jsstring \<Rightarrow> jsstring" where
  "slice_str n s = drop n s"

text \<open>The code units \<open>String.prototype.trim\<close> removes: white space and line terminators.\<close>

definition is_ws :: "16 word \<Rightarrow> bool" where
  "is_ws c =
     (c \<in> {0x09, 0x0A, 0x0B, 0x0C, 0x0D, 0x20, 0xA0, 0x1680, 0x2028, 0x2029, 0x202F, 0x205F,
            0x3000, 0xFEFF}
      \<or> (0x2000 \<le> c \<and> c \<le> 0x200A))"

definition trim :: "jsstring \<Rightarrow> jsstring" where
  "trim s = rev (dropWhile is_ws (rev (dropWhile is_ws s)))"

text \<open>
  \<open>buffer.split('\n')\<close>: the pieces between line feeds; the result is never empty, and its
  last element is what follows the last line feed.
\<close>

fun split_nl :: "jsstring \<Rightarrow> jsstring list" where
  "split_nl [] = [[]]"
| "split_nl (c # cs) =
     (if c = 0x0A then [] # split_nl cs
      else (case split_nl cs of [] \<Rightarrow> [[c]] | l # ls \<Rightarrow> (c # l) # ls))"

text \<open>\<open>lines.pop() || ''\<close>, and the array that \<open>pop\<close> leaves behind.\<close>

definition pop_or_empty :: "jsstring list \<Rightarrow> jsstring" where
  "pop_or_empty ls = (if ls = [] then [] else last ls)"

definition after_pop :: "jsstring list \<Rightarrow> jsstring list" where
  "after_pop ls = butlast ls"

text \<open>
  The updater \<open>prev.map(msg => msg.id === aiMessageId ? {...msg, content: msg.content + text}
  : msg)\<close> handed to \<open>setMessages\<close>.
\<close>

definition append_content :: "jsstring \<Rightarrow> jsstring \<Rightarrow> chat \<Rightarrow> chat" where
  "append_content aiMessageId text ui =
     ui\<lparr>messages :=
           map (\<lambda>msg. if msg_id msg = aiMessageId then msg\<lparr>content := content msg @ text\<rparr>
                      else msg) (messages ui),
        applied := applied ui @ [text]\<rparr>"

text \<open>\<open>chunk.metadata?.finish_reason\<close>, for a chunk that is not null.\<close>

definition finish_reason :: "'n json \<Rightarrow> 'n json option" where
  "finish_reason chunk =
     (case get_prop chunk (js ''metadata'') of
        None \<Rightarrow> None
      | Some JNull \<Rightarrow> None
      | Some metadata \<Rightarrow> get_prop metadata (js ''finish_reason''))"

text \<open>
  The body of the \<open>for\<close> loop over the complete lines. A chunk that parses to null makes
  \<open>chunk.content\<close> throw inside the \<open>try\<close>, which the \<open>catch\<close> treats like text that is
  not JSON.
\<close>

definition process_line :: "('n, 'd) platform \<Rightarrow> jsstring \<Rightarrow> jsstring \<Rightarrow> chat \<Rightarrow> chat" where
  "process_line P aiMessageId line ui =
     (if startsWith line (js ''data: '') then
        (let data = trim (slice_str 6 line) in
         if data \<noteq> [] then
           (let ui1 = ui\<lparr>isWaitingForResponse := False\<rparr> in
            case json_parse P data of
              None \<Rightarrow> append_content aiMessageId data ui1
            | Some JNull \<Rightarrow> append_content aiMessageId data ui1
            | Some chunk \<Rightarrow>
                if truthy P (get_prop chunk (js ''content'')) \<and> \<not> truthy P (finish_reason chunk)
                then append_content aiMessageId
                       (to_str_opt P (get_prop chunk (js ''content''))) ui1
                else ui1)
         else ui)
      else ui)"

fun process_lines :: "('n, 'd) platform \<Rightarrow> jsstring \<Rightarrow> jsstring list \<Rightarrow> chat \<Rightarrow> chat" where
  "process_lines P aiMessageId [] ui = ui"
| "process_lines P aiMessageId (line # lines) ui =
     process_lines P aiMessageId lines (process_line P aiMessageId line ui)"

text \<open>
  The \<open>while (true)\<close> loop over \<open>reader.read()\<close>, with the decoder and the carry-over
  buffer as loop state. It returns the error a rejected read throws, if any.
\<close>

fun read_loop ::
    "('n, 'd) platform \<Rightarrow> jsstring \<Rightarrow> read list \<Rightarrow> 'd \<Rightarrow> jsstring \<Rightarrow> chat \<Rightarrow> error option \<times> chat"
where
  "read_loop P aiMessageId [] decoder buffer ui = (None, ui)"
| "read_loop P aiMessageId (ReadError # rest) decoder buffer ui = (Some ReadRejected, ui)"
| "read_loop P aiMessageId (Chunk v # rest) decoder buffer ui =
     (case decode P decoder v of
        (text, decoder') \<Rightarrow>
          (let lines = split_nl (buffer @ text) in
           read_loop P aiMessageId rest decoder' (pop_or_empty lines)
             (process_lines P aiMessageId (after_pop lines) ui)))"

definition stop_streaming :: "chat \<Rightarrow> chat" where
  "stop_streaming ui = ui\<lparr>isStreaming := False, isWaitingForResponse := False\<rparr>"

text \<open>
  \<open>handleSendMessage\<close>, with the two generated message ids as arguments. The result holds
  the error that reached the \<open>catch\<close> (and was logged to the console), if any.
\<close>

definition handleSendMessage ::
    "('n, 'd) platform \<Rightarrow> 'n server \<Rightarrow> jsstring \<Rightarrow> jsstring \<Rightarrow> jsstring \<Rightarrow> jsstring \<Rightarrow>
     chat \<times> world \<Rightarrow> error option \<times> chat \<times> world" where
  "handleSendMessage P srv threadId userMessageId aiMessageId text s =
     (case s of (ui, w) \<Rightarrow>
       (let userMessage = \<lparr>msg_id = userMessageId, msg_type = Human, content = text\<rparr>;
            ui1 = ui\<lparr>messages := messages ui @ [userMessage],
                     isStreaming := True, isWaitingForResponse := True\<rparr>;
            aiMessage = \<lparr>msg_id = aiMessageId, msg_type = Ai, content = []\<rparr>;
            ui2 = ui1\<lparr>messages := messages ui1 @ [aiMessage]\<rparr>
        in
          (case fetch srv (PostStream (getAuthHeader w) threadId text) w of
             (Rejected, w1) \<Rightarrow> (Some FetchRejected, stop_streaming ui2, w1)
           | (Response st j b, w1) \<Rightarrow>
               if \<not> ok st then (Some FailedToStartStreaming, stop_streaming ui2, w1)
               else
                 (case b of
                    None \<Rightarrow> (Some NoResponseBody, stop_streaming ui2, w1)
                  | Some reads \<Rightarrow>
                      (case read_loop P aiMessageId reads (new_decoder P) [] ui2 of
                         (e, ui3) \<Rightarrow> (e, stop_streaming ui3, w1))))))"

section \<open>Calls in flight at the same time\<close>

text \<open>
  JavaScript runs one call until it reaches an \<open>await\<close> and may then continue another.
  A call of \<open>getCurrentUser\<close> is therefore a task that is about to start, waits for the
  answer to its \<open>/auth/me\<close> request, waits for the answer to its refresh request, or has
  settled; \<open>step\<close> runs it from one suspension point to the next. A request is recorded
  and answered when it is sent, the answer is consumed when the task continues.
\<close>

datatype 'n task =
    Start
  | AwaitMe "'n response"
  | AwaitRefresh "'n response"
  | Done "'n json outcome"

definition step :: "('n, 'd) platform \<Rightarrow> 'n server \<Rightarrow> 'n task \<Rightarrow> world \<Rightarrow> 'n task \<times> world" where
  "step P srv t w =
     (case t of
        Start \<Rightarrow>
          if falsy_str (getToken w) then (Done (Thrown NoAuthenticationToken), w)
          else (case fetch srv (GetMe (the (getToken w))) w of (r, w1) \<Rightarrow> (AwaitMe r, w1))
      | AwaitMe r \<Rightarrow>
          (case r of
             Rejected \<Rightarrow> (Done (Thrown FetchRejected), w)
           | Response st j b \<Rightarrow>
               if \<not> ok st then
                 (if st = 401 then
                    (if falsy_str (getRefreshToken w) then (Done (Thrown FailedToFetchUser), w)
                     else
                       (case fetch srv (PostRefresh (the (getRefreshToken w))) w of
                          (r', w1) \<Rightarrow> (AwaitRefresh r', w1)))
                  else (Done (Thrown FailedToFetchUser), w))
               else
                 (case j of
                    None \<Rightarrow> (Done (Thrown JsonRejected), w)
                  | Some user \<Rightarrow> (Done (Returned user), w)))
      | AwaitRefresh r \<Rightarrow>
          (case r of
             Rejected \<Rightarrow> (Done (Thrown FailedToFetchUser), clearTokens w)
           | Response st j b \<Rightarrow>
               if \<not> ok st then (Done (Thrown FailedToFetchUser), clearTokens w)
               else
                 (case j of
                    None \<Rightarrow> (Done (Thrown FailedToFetchUser), clearTokens w)
                  | Some JNull \<Rightarrow> (Done (Thrown FailedToFetchUser), clearTokens w)
                  | Some token \<Rightarrow> (Start, setTokens P token w)))
      | Done x \<Rightarrow> (Done x, w))"

text \<open>One task alone, run until it settles or the fuel is used up.\<close>

fun run_task ::
    "('n, 'd) platform \<Rightarrow> 'n server \<Rightarrow> nat \<Rightarrow> 'n task \<Rightarrow> world \<Rightarrow> ('n json outcome \<times> world) option"
where
  "run_task P srv n (Done x) w = Some (x, w)"
| "run_task P srv 0 t w = None"
| "run_task P srv (Suc n) t w = (case step P srv t w of (t', w') \<Rightarrow> run_task P srv n t' w')"

text \<open>
  Several tasks over the one shared store: the schedule names, step by step, the task
  that continues.
\<close>

fun run_schedule ::
    "('n, 'd) platform \<Rightarrow> 'n server \<Rightarrow> nat list \<Rightarrow> 'n task list \<times> world \<Rightarrow> 'n task list \<times> world"
where
  "run_schedule P srv [] s = s"
| "run_schedule P srv (i # sched) (ts, w) =
     (if i < length ts then
        (case step P srv (ts ! i) w of
           (t', w') \<Rightarrow> run_schedule P srv sched (ts[i := t'], w'))
      else run_schedule P srv sched (ts, w))"

section \<open>Concrete platforms and servers for the examples\<close>

text \<open>
  A platform whose \<open>JSON.parse\<close> is a finite table of texts and their values, and whose
  decoder turns every byte into the code unit of the same number (UTF-8 on ASCII bytes).
\<close>

definition table_platform :: "(jsstring \<times> unit json) list \<Rightarrow> (unit, unit) platform" where
  "table_platform tbl =
     \<lparr>json_parse = map_of tbl,
      num_truthy = (\<lambda>n. True),
      num_to_string = (\<lambda>n. js ''1''),
      new_decoder = (),
      decode = (\<lambda>d v. (map ucast v, d))\<rparr>"

text \<open>A server that answers by the request alone, from a table, and with a default.\<close>

definition table_server :: "(request \<times> 'n response) list \<Rightarrow> 'n response \<Rightarrow> 'n server" where
  "table_server tbl dflt = (\<lambda>sent req. case map_of tbl req of None \<Rightarrow> dflt | Some r \<Rightarrow> r)"

definition token_pair :: "string \<Rightarrow> string \<Rightarrow> unit json" where
  "token_pair a r = JObj [(js ''access_token'', JStr (js a)), (js ''refresh_token'', JStr (js r))]"

definition bytes_of :: "string \<Rightarrow> bytes" where
  "bytes_of s = map of_char s"

section \<open>Notions used in the statements\<close>

text \<open>
  The refresh attempt fails: the call rejects, the endpoint answers with a status that is
  not a success, or its body cannot be read as a token object.
\<close>

definition refresh_fails :: "'n response \<Rightarrow> bool" where
  "refresh_fails r =
     (case r of Rejected \<Rightarrow> True | Response s j b \<Rightarrow> \<not> ok s \<or> j = None \<or> j = Some JNull)"

text \<open>The response signals an authorization failure.\<close>

definition unauthorized :: "'n response \<Rightarrow> bool" where
  "unauthorized r = (case r of Rejected \<Rightarrow> False | Response st j b \<Rightarrow> st = 401)"

text \<open>The text the decoder yields for a sequence of chunks, read one after the other.\<close>

fun decode_all :: "('n, 'd) platform \<Rightarrow> 'd \<Rightarrow> bytes list \<Rightarrow> jsstring" where
  "decode_all P d [] = []"
| "decode_all P d (v # vs) = (case decode P d v of (t, d') \<Rightarrow> t @ decode_all P d' vs)"

text \<open>
  What \<open>TextDecoder\<close> guarantees in streaming mode: an empty chunk yields nothing and
  leaves the decoder as it is, and decoding a chunk in two parts yields the same text and
  the same decoder as decoding it at once. The repository relies on it and does not
  implement it, so the statements about byte chunks assume it of the platform.
\<close>

definition streaming_decoder :: "('n, 'd) platform \<Rightarrow> bool" where
  "streaming_decoder P =
     ((\<forall>d. decode P d [] = ([], d)) \<and>
      (\<forall>d a b. decode P d (a @ b) =
         (case decode P d a of (s1, d1) \<Rightarrow> case decode P d1 b of (s2, d2) \<Rightarrow> (s1 @ s2, d2))))"

text \<open>
  Two messages at the same position of the transcript before and after: same id, same
  type, and the same message altogether unless it is the addressed one, whose content
  may only have been extended.
\<close>

definition only_content_grows :: "jsstring \<Rightarrow> message \<Rightarrow> message \<Rightarrow> bool" where
  "only_content_grows a m m' =
     (msg_id m' = msg_id m \<and> msg_type m' = msg_type m \<and>
      (if msg_id m = a then take (length (content m)) (content m') = content m else m' = m))"

text \<open>A stream of complete lines: every line is followed by a line feed.\<close>

definition lines_text :: "jsstring list \<Rightarrow> jsstring" where
  "lines_text ls = concat (map (\<lambda>l. l @ [0x0A]) ls)"

text \<open>
  The events of the wire format, by payload (the text after the marker, on one line). A
  delta event with text \<open>t\<close> parses to an object whose \<open>content\<close> is the string \<open>t\<close> and
  which does not mark completion; a completion event parses to an object whose metadata
  carries a finish reason.
\<close>

definition delta_payload :: "('n, 'd) platform \<Rightarrow> jsstring \<Rightarrow> jsstring \<Rightarrow> bool" where
  "delta_payload P p t =
     (0x0A \<notin> set p \<and> trim p \<noteq> [] \<and>
      (case json_parse P (trim p) of
         None \<Rightarrow> False
       | Some chunk \<Rightarrow>
           get_prop chunk (js ''content'') = Some (JStr t) \<and> \<not> truthy P (finish_reason chunk)))"

definition done_payload :: "('n, 'd) platform \<Rightarrow> jsstring \<Rightarrow> bool" where
  "done_payload P p =
     (0x0A \<notin> set p \<and>
      (case json_parse P (trim p) of
         None \<Rightarrow> False
       | Some chunk \<Rightarrow> truthy P (finish_reason chunk)))"

text \<open>The transcript with \<open>t\<close> appended to the content of the message with id \<open>a\<close>.\<close>

definition add_text :: "jsstring \<Rightarrow> jsstring \<Rightarrow> message list \<Rightarrow> message list" where
  "add_text a t ms =
     map (\<lambda>msg. if msg_id msg = a then msg\<lparr>content := content msg @ t\<rparr> else msg) ms"

text \<open>The inputs of the examples.\<close>

definition streaming_chat :: chat where
  "streaming_chat = \<lparr>messages = [\<lparr>msg_id = js ''m1'', msg_type = Human, content = js ''hi''\<rparr>,
                      \<lparr>msg_id = js ''m2'', msg_type = Ai, content = []\<rparr>],
          isStreaming = True, isWaitingForResponse = True, applied = []\<rparr>"

definition hello_platform :: "(unit, unit) platform" where
  \<open>hello_platform = table_platform
     [(js ''{"content":"Hel"}'', JObj [(js ''content'', JStr (js ''Hel''))]),
      (js ''{"content":"lo"}'', JObj [(js ''content'', JStr (js ''lo''))]),
      (js ''{"content":"","metadata":{"finish_reason":"stop"}}'',
       JObj [(js ''content'', JStr []),
             (js ''metadata'', JObj [(js ''finish_reason'', JStr (js ''stop''))])])]\<close>

definition hello_chunks :: "bytes list" where
  \<open>hello_chunks =
     [bytes_of ''data: {"content":"Hel"}\<newline>da'',
      bytes_of ''ta: {"content":"lo"}\<newline>data: {"content":"","meta'',
      bytes_of ''data":{"finish_reason":"stop"}}\<newline>'']\<close>

definition signed_in :: world where
  "signed_in = \<lparr>access_token = Some (js ''a0''), refresh_token = Some (js ''r0''), requests = []\<rparr>"

definition empty_chat :: chat where
  "empty_chat = \<lparr>messages = [], isStreaming = False, isWaitingForResponse = False, applied = []\<rparr>"

section \<open>AuthService: refresh and retry\<close>

lemma not_ok_401: "\<not> ok 401"
  by (simp add: ok_def)

lemma refresh_ok:
  assumes "getRefreshToken w = Some rt" "rt \<noteq> []"
    and "srv (requests w) (PostRefresh rt) = Response s (Some token) b" "ok s" "token \<noteq> JNull"
  shows "refreshAccessToken P srv w =
           (True, setTokens P token (w\<lparr>requests := requests w @ [PostRefresh rt]\<rparr>))"
  using assms by (cases token) (simp_all add: refreshAccessToken_def falsy_str_def fetch_def)

lemma refresh_fail:
  assumes "getRefreshToken w = Some rt" "rt \<noteq> []"
    and "refresh_fails (srv (requests w) (PostRefresh rt))"
  shows "refreshAccessToken P srv w =
           (False, clearTokens (w\<lparr>requests := requests w @ [PostRefresh rt]\<rparr>))"
  using assms
  by (auto simp add: refreshAccessToken_def falsy_str_def fetch_def refresh_fails_def
      split: response.splits option.splits json.splits)

lemma getCurrentUser_401:
  assumes "getToken w = Some tok" "tok \<noteq> []"
    and "srv (requests w) (GetMe tok) = Response 401 j b"
  shows "getCurrentUser P srv w =
     (case refreshAccessToken P srv (w\<lparr>requests := requests w @ [GetMe tok]\<rparr>) of
        (refreshed, w2) \<Rightarrow>
           if refreshed then getCurrentUser P srv w2 else Some (Thrown FailedToFetchUser, w2))"
  using assms not_ok_401
  by (subst getCurrentUser.simps) (simp add: falsy_str_def fetch_def)

lemma getCurrentUser_ok:
  assumes "getToken w = Some tok" "tok \<noteq> []"
    and "srv (requests w) (GetMe tok) = Response s (Some user) b" "ok s"
  shows "getCurrentUser P srv w = Some (Returned user, w\<lparr>requests := requests w @ [GetMe tok]\<rparr>)"
  using assms
  by (subst getCurrentUser.simps) (simp add: falsy_str_def fetch_def)

text \<open>
  C6. A request that is answered with 401 while a refresh token is stored, followed by a
  successful refresh and a successful second request: the requests sent are the original
  one, exactly one refresh and exactly one retry, the retry carries the new access token,
  the new pair is stored, and the call returns what the retry returned.
\<close>

theorem getCurrentUser_refresh_retry_once:
  assumes tok: "getToken w = Some tok" "tok \<noteq> []"
    and me1: "srv (requests w) (GetMe tok) = Response 401 j1 b1"
    and rt: "getRefreshToken w = Some rt" "rt \<noteq> []"
    and rf: "srv (requests w @ [GetMe tok]) (PostRefresh rt) = Response s2 (Some token) b2"
            "ok s2" "token \<noteq> JNull"
    and tok': "to_str_opt P (get_prop token (js ''access_token'')) = tok'" "tok' \<noteq> []"
    and me2: "srv (requests w @ [GetMe tok, PostRefresh rt]) (GetMe tok') = Response s3 (Some user) b3"
             "ok s3"
  shows "getCurrentUser P srv w =
      Some (Returned user,
        w\<lparr>access_token := Some tok',
          refresh_token := Some (to_str_opt P (get_prop token (js ''refresh_token''))),
          requests := requests w @ [GetMe tok, PostRefresh rt, GetMe tok']\<rparr>)"
proof -
  let ?w1 = "w\<lparr>requests := requests w @ [GetMe tok]\<rparr>"
  let ?w2 = "setTokens P token (?w1\<lparr>requests := requests ?w1 @ [PostRefresh rt]\<rparr>)"
  have r: "refreshAccessToken P srv ?w1 = (True, ?w2)"
    using rt rf by (intro refresh_ok) (simp_all add: getRefreshToken_def)
  have step1: "getCurrentUser P srv w = getCurrentUser P srv ?w2"
    using getCurrentUser_401 [where srv = srv and P = P, OF tok me1] r by simp
  have step2: "getCurrentUser P srv ?w2 =
                 Some (Returned user, ?w2\<lparr>requests := requests ?w2 @ [GetMe tok']\<rparr>)"
    using tok' me2 by (intro getCurrentUser_ok) (simp_all add: getToken_def setTokens_def)
  show ?thesis unfolding step1 step2 using tok' by (simp add: setTokens_def)
qed

theorem getCurrentUser_refresh_retry_once_witness:
  "getCurrentUser (table_platform [])
     (table_server
        [(GetMe (js ''a1''), Response 200 (Some (JStr (js ''ann''))) None),
         (PostRefresh (js ''r0''), Response 200 (Some (token_pair ''a1'' ''r1'')) None)]
        (Response 401 None None))
     \<lparr>access_token = Some (js ''a0''), refresh_token = Some (js ''r0''), requests = []\<rparr>
   = Some (Returned (JStr (js ''ann'')),
       \<lparr>access_token = Some (js ''a1''), refresh_token = Some (js ''r1''),
        requests = [GetMe (js ''a0''), PostRefresh (js ''r0''), GetMe (js ''a1'')]\<rparr>)"
  using getCurrentUser_refresh_retry_once [of "\<lparr>access_token = Some (js ''a0''), refresh_token = Some (js ''r0''), requests = []\<rparr>"
      "js ''a0''"
      "table_server
        [(GetMe (js ''a1''), Response 200 (Some (JStr (js ''ann''))) None),
         (PostRefresh (js ''r0''), Response 200 (Some (token_pair ''a1'' ''r1'')) None)]
        (Response 401 None None)"
      None None "js ''r0''" 200 "token_pair ''a1'' ''r1''" None "table_platform []" "js ''a1''"
      200 "JStr (js ''ann'')" None]
  by (simp add: getToken_def getRefreshToken_def table_server_def token_pair_def js_def ok_def
      to_str_opt_def)

text \<open>
  C7. When the request is answered with 401 and the refresh attempt fails (the call
  rejects, the status is not a success, or the body is no token object), both stored
  tokens are removed and the call fails with the error of the failed request; no further
  request is sent.
\<close>

theorem getCurrentUser_refresh_failure_clears:
  assumes tok: "getToken w = Some tok" "tok \<noteq> []"
    and me1: "srv (requests w) (GetMe tok) = Response 401 j1 b1"
    and rt: "getRefreshToken w = Some rt" "rt \<noteq> []"
    and rf: "refresh_fails (srv (requests w @ [GetMe tok]) (PostRefresh rt))"
  shows "getCurrentUser P srv w =
      Some (Thrown FailedToFetchUser,
        w\<lparr>access_token := None, refresh_token := None,
          requests := requests w @ [GetMe tok, PostRefresh rt]\<rparr>)"
proof -
  let ?w1 = "w\<lparr>requests := requests w @ [GetMe tok]\<rparr>"
  have r: "refreshAccessToken P srv ?w1 =
             (False, clearTokens (?w1\<lparr>requests := requests ?w1 @ [PostRefresh rt]\<rparr>))"
    using rt rf by (intro refresh_fail) (simp_all add: getRefreshToken_def)
  show ?thesis
    using getCurrentUser_401 [where srv = srv and P = P, OF tok me1] r by (simp add: clearTokens_def)
qed

theorem getCurrentUser_refresh_failure_clears_witness:
  "getCurrentUser (table_platform [])
     (table_server [(PostRefresh (js ''r0''), Response 403 None None)] (Response 401 None None))
     \<lparr>access_token = Some (js ''a0''), refresh_token = Some (js ''r0''), requests = []\<rparr>
   = Some (Thrown FailedToFetchUser,
       \<lparr>access_token = None, refresh_token = None,
        requests = [GetMe (js ''a0''), PostRefresh (js ''r0'')]\<rparr>)"
  using getCurrentUser_refresh_failure_clears [of "\<lparr>access_token = Some (js ''a0''), refresh_token = Some (js ''r0''), requests = []\<rparr>"
      "js ''a0''"
      "table_server [(PostRefresh (js ''r0''), Response 403 None None)] (Response 401 None None)"
      None None "js ''r0''" "table_platform []"]
  by (simp add: getToken_def getRefreshToken_def table_server_def js_def ok_def refresh_fails_def)

text \<open>
  C1, as the code has it. After a 401, a successful refresh and a second 401, the retry is
  the same function again: it runs \<open>refreshAccessToken\<close> a second time, which sends a
  second refresh request with the refresh token just stored. The failure is raised only
  if that refresh fails; otherwise the request is tried once more.
\<close>

theorem getCurrentUser_second_401_refreshes_again:
  assumes tok: "getToken w = Some tok" "tok \<noteq> []"
    and me1: "srv (requests w) (GetMe tok) = Response 401 j1 b1"
    and rt: "getRefreshToken w = Some rt" "rt \<noteq> []"
    and rf: "srv (requests w @ [GetMe tok]) (PostRefresh rt) = Response s2 (Some token) b2"
            "ok s2" "token \<noteq> JNull"
    and tok': "to_str_opt P (get_prop token (js ''access_token'')) = tok'" "tok' \<noteq> []"
    and rt': "to_str_opt P (get_prop token (js ''refresh_token'')) = rt'" "rt' \<noteq> []"
    and me2: "srv (requests w @ [GetMe tok, PostRefresh rt]) (GetMe tok') = Response 401 j3 b3"
    and w3: "w3 = w\<lparr>access_token := Some tok', refresh_token := Some rt',
                     requests := requests w @ [GetMe tok, PostRefresh rt, GetMe tok']\<rparr>"
  shows "getCurrentUser P srv w =
           (case refreshAccessToken P srv w3 of
              (refreshed, w4) \<Rightarrow>
                if refreshed then getCurrentUser P srv w4
                else Some (Thrown FailedToFetchUser, w4))
         \<and> requests (snd (refreshAccessToken P srv w3)) =
             requests w @ [GetMe tok, PostRefresh rt, GetMe tok', PostRefresh rt']"
proof -
  let ?w1 = "w\<lparr>requests := requests w @ [GetMe tok]\<rparr>"
  let ?w2 = "setTokens P token (?w1\<lparr>requests := requests ?w1 @ [PostRefresh rt]\<rparr>)"
  have r: "refreshAccessToken P srv ?w1 = (True, ?w2)"
    using rt rf by (intro refresh_ok) (simp_all add: getRefreshToken_def)
  have step1: "getCurrentUser P srv w = getCurrentUser P srv ?w2"
    using getCurrentUser_401 [where srv = srv and P = P, OF tok me1] r by simp
  have w3': "?w2\<lparr>requests := requests ?w2 @ [GetMe tok']\<rparr> = w3"
    using tok' rt' w3 by (simp add: setTokens_def)
  have step2: "getCurrentUser P srv ?w2 =
     (case refreshAccessToken P srv w3 of
        (refreshed, w4) \<Rightarrow>
           if refreshed then getCurrentUser P srv w4 else Some (Thrown FailedToFetchUser, w4))"
    unfolding w3' [symmetric]
    using tok' me2
    by (intro getCurrentUser_401 [where tok = tok']) (simp_all add: getToken_def setTokens_def)
  have "requests (snd (refreshAccessToken P srv w3)) = requests w3 @ [PostRefresh rt']"
    using rt' w3
    by (simp add: refreshAccessToken_def falsy_str_def getRefreshToken_def fetch_def
        clearTokens_def setTokens_def split: response.splits option.splits json.splits)
  then show ?thesis using step1 step2 w3 by simp
qed

theorem getCurrentUser_second_401_refreshes_again_witness:
  "getCurrentUser (table_platform [])
     (table_server
        [(PostRefresh (js ''r0''), Response 200 (Some (token_pair ''a1'' ''r1'')) None)]
        (Response 401 None None))
     \<lparr>access_token = Some (js ''a0''), refresh_token = Some (js ''r0''), requests = []\<rparr>
   = Some (Thrown FailedToFetchUser,
       \<lparr>access_token = None, refresh_token = None,
        requests = [GetMe (js ''a0''), PostRefresh (js ''r0''), GetMe (js ''a1''),
                    PostRefresh (js ''r1'')]\<rparr>)"
  using getCurrentUser_second_401_refreshes_again [of
      "\<lparr>access_token = Some (js ''a0''), refresh_token = Some (js ''r0''), requests = []\<rparr>"
      "js ''a0''"
      "table_server
        [(PostRefresh (js ''r0''), Response 200 (Some (token_pair ''a1'' ''r1'')) None)]
        (Response 401 None None)"
      None None "js ''r0''" 200 "token_pair ''a1'' ''r1''" None "table_platform []" "js ''a1''"
      "js ''r1''" None None
      "\<lparr>access_token = Some (js ''a1''), refresh_token = Some (js ''r1''),
        requests = [GetMe (js ''a0''), PostRefresh (js ''r0''), GetMe (js ''a1'')]\<rparr>"]
  by (simp add: getToken_def getRefreshToken_def table_server_def token_pair_def js_def ok_def
      to_str_opt_def refreshAccessToken_def falsy_str_def fetch_def clearTokens_def)

text \<open>
  C1 as stated fails: with a server that answers 401 to the first two requests and accepts
  both refreshes, the call sends two refresh requests and then returns the user instead of
  failing at the second 401.
\<close>

theorem getCurrentUser_two_refreshes_counterexample:
  "getCurrentUser (table_platform [])
     (table_server
        [(PostRefresh (js ''r0''), Response 200 (Some (token_pair ''a1'' ''r1'')) None),
         (PostRefresh (js ''r1''), Response 200 (Some (token_pair ''a2'' ''r2'')) None),
         (GetMe (js ''a2''), Response 200 (Some (JStr (js ''ann''))) None)]
        (Response 401 None None))
     \<lparr>access_token = Some (js ''a0''), refresh_token = Some (js ''r0''), requests = []\<rparr>
   = Some (Returned (JStr (js ''ann'')),
       \<lparr>access_token = Some (js ''a2''), refresh_token = Some (js ''r2''),
        requests = [GetMe (js ''a0''), PostRefresh (js ''r0''), GetMe (js ''a1''),
                    PostRefresh (js ''r1''), GetMe (js ''a2'')]\<rparr>)"
  apply (subst getCurrentUser.simps)
  apply (simp add: getToken_def getRefreshToken_def table_server_def token_pair_def js_def ok_def
      to_str_opt_def refreshAccessToken_def falsy_str_def fetch_def clearTokens_def setTokens_def)
  apply (subst getCurrentUser.simps)
  apply (simp add: getToken_def getRefreshToken_def table_server_def token_pair_def js_def ok_def
      to_str_opt_def refreshAccessToken_def falsy_str_def fetch_def clearTokens_def setTokens_def)
  apply (subst getCurrentUser.simps)
  apply (simp add: getToken_def getRefreshToken_def table_server_def token_pair_def js_def ok_def
      to_str_opt_def refreshAccessToken_def falsy_str_def fetch_def clearTokens_def setTokens_def)
  done

section \<open>The task view agrees with the sequential one\<close>

lemma run_task_Done: "run_task P srv n (Done x) w = Some (x, w)"
  by (cases n) simp_all

lemma run_task_Start_Suc:
  "run_task P srv (Suc n) Start w =
     (if falsy_str (getToken w) then Some (Thrown NoAuthenticationToken, w)
      else run_task P srv n (AwaitMe (srv (requests w) (GetMe (the (getToken w)))))
             (w\<lparr>requests := requests w @ [GetMe (the (getToken w))]\<rparr>))"
  by (simp add: step_def fetch_def run_task_Done)

lemma run_task_AwaitMe_Suc:
  "run_task P srv (Suc n) (AwaitMe r) w =
     (case r of
        Rejected \<Rightarrow> Some (Thrown FetchRejected, w)
      | Response st j b \<Rightarrow>
          if \<not> ok st then
            (if st = 401 then
               (if falsy_str (getRefreshToken w) then Some (Thrown FailedToFetchUser, w)
                else run_task P srv n
                       (AwaitRefresh (srv (requests w) (PostRefresh (the (getRefreshToken w)))))
                       (w\<lparr>requests := requests w @ [PostRefresh (the (getRefreshToken w))]\<rparr>))
             else Some (Thrown FailedToFetchUser, w))
          else (case j of None \<Rightarrow> Some (Thrown JsonRejected, w)
                | Some user \<Rightarrow> Some (Returned user, w)))"
  by (simp add: step_def fetch_def run_task_Done split: response.splits option.splits)

lemma run_task_AwaitRefresh_Suc:
  "run_task P srv (Suc n) (AwaitRefresh r) w =
     (case step P srv (AwaitRefresh r) w of (t', w') \<Rightarrow> run_task P srv n t' w')"
  by simp

declare run_task.simps [simp del]

lemma run_task_sound:
  "run_task P srv n Start w = Some res \<Longrightarrow> getCurrentUser P srv w = Some res"
proof (induction n arbitrary: w rule: less_induct)
  case (less n)
  from less.prems obtain m where n: "n = Suc m" by (cases n) (auto simp add: run_task.simps)
  show ?case
  proof (cases "falsy_str (getToken w)")
    case True
    with less.prems n show ?thesis
      by (subst getCurrentUser.simps) (simp add: run_task_Start_Suc run_task_Done)
  next
    case False
    let ?tok = "the (getToken w)"
    let ?w1 = "w\<lparr>requests := requests w @ [GetMe ?tok]\<rparr>"
    let ?r = "srv (requests w) (GetMe ?tok)"
    from less.prems n False have a: "run_task P srv m (AwaitMe ?r) ?w1 = Some res"
      by (simp add: run_task_Start_Suc run_task_Done)
    then obtain k where m: "m = Suc k" by (cases m) (auto simp add: run_task.simps)
    note a' = a [unfolded m run_task_AwaitMe_Suc]
    show ?thesis
    proof (cases "?r")
      case Rejected
      with a' False show ?thesis
        by (subst getCurrentUser.simps) (simp add: fetch_def)
    next
      case (Response st j b)
      show ?thesis
      proof (cases "st = 401 \<and> \<not> falsy_str (getRefreshToken ?w1)")
        case False
        with a' Response \<open>\<not> falsy_str (getToken w)\<close> show ?thesis
          by (subst getCurrentUser.simps)
             (auto simp add: fetch_def refreshAccessToken_def not_ok_401 split: option.splits if_splits)
      next
        case True
        let ?rt = "the (getRefreshToken ?w1)"
        let ?w2 = "?w1\<lparr>requests := requests ?w1 @ [PostRefresh ?rt]\<rparr>"
        let ?r2 = "srv (requests ?w1) (PostRefresh ?rt)"
        from a' Response True have b: "run_task P srv k (AwaitRefresh ?r2) ?w2 = Some res"
          by (simp add: not_ok_401)
        then obtain l where k: "k = Suc l" by (cases k) (auto simp add: run_task.simps)
        have gc: "getCurrentUser P srv w =
            (case refreshAccessToken P srv ?w1 of
              (refreshed, w2) \<Rightarrow>
                 if refreshed then getCurrentUser P srv w2 else Some (Thrown FailedToFetchUser, w2))"
          using Response True \<open>\<not> falsy_str (getToken w)\<close>
          by (subst getCurrentUser.simps) (simp add: fetch_def not_ok_401)
        show ?thesis
        proof (cases "fst (refreshAccessToken P srv ?w1)")
          case False
          with b k True show ?thesis unfolding gc
            by (auto simp add: refreshAccessToken_def fetch_def step_def run_task_AwaitRefresh_Suc run_task_Done
                split: response.splits option.splits json.splits if_splits)
        next
          case rf: True
          then obtain token where tk: "refreshAccessToken P srv ?w1 = (True, setTokens P token ?w2)"
            and st: "step P srv (AwaitRefresh ?r2) ?w2 = (Start, setTokens P token ?w2)"
            using True
            by (auto simp add: refreshAccessToken_def fetch_def step_def
                split: response.splits option.splits json.splits if_splits)
          from b k st have "run_task P srv l Start (setTokens P token ?w2) = Some res" by (simp add: run_task_AwaitRefresh_Suc)
          from \<open>run_task P srv l Start (setTokens P token ?w2) = Some res\<close> have "run_task P srv l Start (setTokens P token ?w2) = Some res" by simp
          moreover have "l < n" using n m k by simp
          ultimately have "getCurrentUser P srv (setTokens P token ?w2) = Some res"
            by (rule less.IH [rotated])
          then show ?thesis unfolding gc tk by simp
        qed
      qed
    qed
  qed
qed

lemma run_task_complete_step:
  assumes IH: "\<And>P srv w res. f P srv w = Some res \<Longrightarrow> \<exists>n. run_task P srv n Start w = Some res"
    and body: "(if falsy_str (getToken w) then Some (Thrown NoAuthenticationToken, w)
      else case fetch srv (GetMe (the (getToken w))) w of
           (Rejected, w1) \<Rightarrow> Some (Thrown FetchRejected, w1)
           | (Response st j b, w1) \<Rightarrow>
               if \<not> ok st
               then if st = 401
                    then case refreshAccessToken P srv w1 of
                         (refreshed, w2) \<Rightarrow>
                           if refreshed then f P srv w2
                           else Some (Thrown FailedToFetchUser, w2)
                    else Some (Thrown FailedToFetchUser, w1)
               else case j of None \<Rightarrow> Some (Thrown JsonRejected, w1)
                    | Some user \<Rightarrow> Some (Returned user, w1)) = Some res"
  shows "\<exists>n. run_task P srv n Start w = Some res"
proof -
  note step = IH body
  show ?thesis
  proof (cases "falsy_str (getToken w)")
    case True
    with step(2) have "run_task P srv (Suc 0) Start w = Some res"
      by (simp add: run_task_Start_Suc)
    then show ?thesis by blast
  next
    case False
    let ?tok = "the (getToken w)"
    let ?w1 = "w\<lparr>requests := requests w @ [GetMe ?tok]\<rparr>"
    let ?r = "srv (requests w) (GetMe ?tok)"
    have s1: "run_task P srv (Suc n) Start w = run_task P srv n (AwaitMe ?r) ?w1" for n
      using False by (simp add: run_task_Start_Suc)
    show ?thesis
    proof (cases "\<exists>j b. ?r = Response 401 j b \<and> \<not> falsy_str (getRefreshToken ?w1)")
      case False
      with step(2) \<open>\<not> falsy_str (getToken w)\<close>
      have "run_task P srv (Suc 0) (AwaitMe ?r) ?w1 = Some res"
        by (cases ?r)
           (auto simp add: run_task_AwaitMe_Suc fetch_def refreshAccessToken_def not_ok_401
             split: option.splits if_splits)
      then show ?thesis using s1 by metis
    next
      case True
      then obtain j b where r: "?r = Response 401 j b" and rt: "\<not> falsy_str (getRefreshToken ?w1)"
        by blast
      let ?rt = "the (getRefreshToken ?w1)"
      let ?w2 = "?w1\<lparr>requests := requests ?w1 @ [PostRefresh ?rt]\<rparr>"
      let ?r2 = "srv (requests ?w1) (PostRefresh ?rt)"
      have s2: "run_task P srv (Suc n) (AwaitMe ?r) ?w1 = run_task P srv n (AwaitRefresh ?r2) ?w2" for n
        using r rt by (simp add: run_task_AwaitMe_Suc not_ok_401)
      have gc: "(case refreshAccessToken P srv ?w1 of
              (refreshed, w2) \<Rightarrow>
                 if refreshed then f P srv w2 else Some (Thrown FailedToFetchUser, w2)) = Some res"
        using step(2) r \<open>\<not> falsy_str (getToken w)\<close> by (simp add: fetch_def not_ok_401)
      show ?thesis
      proof (cases "fst (refreshAccessToken P srv ?w1)")
        case False
        with gc rt have "run_task P srv (Suc 0) (AwaitRefresh ?r2) ?w2 = Some res"
          by (auto simp add: refreshAccessToken_def fetch_def step_def run_task_AwaitRefresh_Suc
              run_task_Done split: response.splits option.splits json.splits if_splits)
        then show ?thesis using s1 s2 by metis
      next
        case True
        then obtain token where tk: "refreshAccessToken P srv ?w1 = (True, setTokens P token ?w2)"
          and st: "step P srv (AwaitRefresh ?r2) ?w2 = (Start, setTokens P token ?w2)"
          using rt
          by (auto simp add: refreshAccessToken_def fetch_def step_def
              split: response.splits option.splits json.splits if_splits)
        from gc tk have "f P srv (setTokens P token ?w2) = Some res" by simp
        then obtain n where "run_task P srv n Start (setTokens P token ?w2) = Some res"
          using step(1) by blast
        then have "run_task P srv (Suc n) (AwaitRefresh ?r2) ?w2 = Some res"
          using st by (simp add: run_task_AwaitRefresh_Suc)
        then show ?thesis using s1 s2 by metis
      qed
    qed
  qed
qed

lemma run_task_complete:
  assumes "getCurrentUser P srv w = Some res"
  shows "\<exists>n. run_task P srv n Start w = Some res"
proof -
  have "(\<lambda>x res. \<exists>n. run_task (fst (fst x)) (snd (fst x)) n Start (snd x) = Some res)
          ((P, srv), w) res"
    by (rule getCurrentUser.raw_induct [OF _ assms]) (simp, rule run_task_complete_step, auto)
  then show ?thesis by simp
qed

lemma run_task_iff:
  "getCurrentUser P srv w = Some res \<longleftrightarrow> (\<exists>n. run_task P srv n Start w = Some res)"
  using run_task_sound run_task_complete by blast

section \<open>Several calls in flight\<close>

lemma step_AwaitMe_401:
  assumes "getRefreshToken w = Some rt" "rt \<noteq> []"
  shows "step P srv (AwaitMe (Response 401 j b)) w =
           (AwaitRefresh (srv (requests w) (PostRefresh rt)),
            w\<lparr>requests := requests w @ [PostRefresh rt]\<rparr>)"
  using assms by (simp add: step_def not_ok_401 falsy_str_def fetch_def)

lemma run_schedule_all_401:
  assumes "list_all unauthorized rs" "getRefreshToken w = Some rt" "rt \<noteq> []"
  shows "run_schedule P srv [length pre ..< length pre + length rs] (pre @ map AwaitMe rs, w) =
     (pre @ map (\<lambda>i. AwaitRefresh (srv (requests w @ replicate i (PostRefresh rt)) (PostRefresh rt)))
              [0 ..< length rs],
      w\<lparr>requests := requests w @ replicate (length rs) (PostRefresh rt)\<rparr>)"
  using assms
proof (induction rs arbitrary: pre w)
  case Nil
  then show ?case by simp
next
  case (Cons r rs)
  from Cons.prems obtain j b where r: "r = Response 401 j b"
    by (cases r) (auto simp add: unauthorized_def)
  let ?w1 = "w\<lparr>requests := requests w @ [PostRefresh rt]\<rparr>"
  let ?t = "AwaitRefresh (srv (requests w) (PostRefresh rt))"
  have st: "step P srv (AwaitMe r) w = (?t, ?w1)"
    unfolding r using Cons.prems by (intro step_AwaitMe_401)
  have sched: "[length pre ..< length pre + length (r # rs)] =
                 length pre # [length (pre @ [?t]) ..< length (pre @ [?t]) + length rs]"
    by (simp add: upt_rec)
  have IH: "run_schedule P srv [length (pre @ [?t]) ..< length (pre @ [?t]) + length rs]
              ((pre @ [?t]) @ map AwaitMe rs, ?w1) =
     ((pre @ [?t]) @ map (\<lambda>i. AwaitRefresh (srv (requests ?w1 @ replicate i (PostRefresh rt)) (PostRefresh rt)))
              [0 ..< length rs],
      ?w1\<lparr>requests := requests ?w1 @ replicate (length rs) (PostRefresh rt)\<rparr>)"
    using Cons.prems by (intro Cons.IH) (simp_all add: getRefreshToken_def)
  have upd: "(pre @ map AwaitMe (r # rs))[length pre := ?t] = (pre @ [?t]) @ map AwaitMe rs"
    by simp
  have nth: "(pre @ map AwaitMe (r # rs)) ! length pre = AwaitMe r"
    by simp
  have "run_schedule P srv [length pre ..< length pre + length (r # rs)]
          (pre @ map AwaitMe (r # rs), w) =
        run_schedule P srv [length (pre @ [?t]) ..< length (pre @ [?t]) + length rs]
              ((pre @ [?t]) @ map AwaitMe rs, ?w1)"
    unfolding sched by (simp only: run_schedule.simps nth st upd) simp
  also note IH
  finally show ?case
    by (simp add: map_upt_Suc replicate_append_same del: upt_Suc)
qed

text \<open>
  C5, as the code has it. When each of N calls in flight has received a 401 and continues
  before any refresh has been answered, each of them sends its own refresh request with
  the stored refresh token: N refresh requests, all waiting for their own answer.
\<close>

theorem simultaneous_401_refresh_each:
  assumes "list_all unauthorized rs" "getRefreshToken w = Some rt" "rt \<noteq> []"
  shows "run_schedule P srv [0 ..< length rs] (map AwaitMe rs, w) =
     (map (\<lambda>i. AwaitRefresh (srv (requests w @ replicate i (PostRefresh rt)) (PostRefresh rt)))
              [0 ..< length rs],
      w\<lparr>requests := requests w @ replicate (length rs) (PostRefresh rt)\<rparr>)"
  using run_schedule_all_401 [OF assms, where pre = "[]" and P = P and srv = srv] by simp

theorem simultaneous_401_refresh_each_witness:
  "run_schedule (table_platform []) (table_server [] (Response 401 None None)) [0 ..< 3]
     (map AwaitMe [Response 401 None None, Response 401 None None, Response 401 None None],
      \<lparr>access_token = Some (js ''a0''), refresh_token = Some (js ''r0''), requests = []\<rparr>)
   = ([AwaitRefresh (Response 401 None None), AwaitRefresh (Response 401 None None),
       AwaitRefresh (Response 401 None None)],
      \<lparr>access_token = Some (js ''a0''), refresh_token = Some (js ''r0''),
       requests = [PostRefresh (js ''r0''), PostRefresh (js ''r0''), PostRefresh (js ''r0'')]\<rparr>)"
  using simultaneous_401_refresh_each [of "[Response 401 None None, Response 401 None None, Response 401 None None]"
      "\<lparr>access_token = Some (js ''a0''), refresh_token = Some (js ''r0''), requests = []\<rparr>"
      "js ''r0''" "table_platform []" "table_server [] (Response 401 None None)"]
  by (simp add: unauthorized_def getRefreshToken_def js_def table_server_def upt_rec numeral_eq_Suc)

text \<open>
  C5 as stated fails: two calls started together against a server that rejects the old
  access token send two refresh requests, not one.
\<close>

theorem two_calls_two_refreshes_counterexample:
  "run_schedule (table_platform [])
     (table_server
        [(PostRefresh (js ''r0''), Response 200 (Some (token_pair ''a1'' ''r1'')) None),
         (GetMe (js ''a1''), Response 200 (Some (JStr (js ''ann''))) None)]
        (Response 401 None None))
     [0, 1, 0, 1, 0, 1, 0, 1, 0, 1]
     ([Start, Start],
      \<lparr>access_token = Some (js ''a0''), refresh_token = Some (js ''r0''), requests = []\<rparr>)
   = ([Done (Returned (JStr (js ''ann''))), Done (Returned (JStr (js ''ann'')))],
      \<lparr>access_token = Some (js ''a1''), refresh_token = Some (js ''r1''),
       requests = [GetMe (js ''a0''), GetMe (js ''a0''), PostRefresh (js ''r0''),
                   PostRefresh (js ''r0''), GetMe (js ''a1''), GetMe (js ''a1'')]\<rparr>)"
  by (simp add: step_def getToken_def getRefreshToken_def table_server_def token_pair_def js_def
      ok_def to_str_opt_def falsy_str_def fetch_def clearTokens_def setTokens_def)

section \<open>The decode loop: lines and chunks\<close>

lemma split_nl_nonempty: "split_nl s \<noteq> []"
  by (induction s) (auto split: list.splits)

lemma split_nl_append:
  "split_nl (a @ b) = butlast (split_nl a) @ split_nl (last (split_nl a) @ b)"
proof (induction a)
  case Nil
  show ?case by simp
next
  case (Cons c a)
  obtain l ls where s: "split_nl a = l # ls"
    using split_nl_nonempty [of a] by (cases "split_nl a") auto
  obtain l' ls' where s': "split_nl (a @ b) = l' # ls'"
    using split_nl_nonempty [of "a @ b"] by (cases "split_nl (a @ b)") auto
  show ?case
  proof (cases "c = 0x0A")
    case True
    with Cons s show ?thesis by (simp add: split_nl_nonempty)
  next
    case False
    show ?thesis
    proof (cases ls)
      case Nil
      with Cons s False show ?thesis
        by (auto split: list.splits)
    next
      case (Cons x xs)
      with Cons.IH s False show ?thesis
        by (auto split: list.splits simp add: split_nl_nonempty)
    qed
  qed
qed

lemma last_split_nl_no_nl: "0x0A \<notin> set (last (split_nl s))"
  by (induction s) (auto split: list.splits simp add: split_nl_nonempty)

lemma split_nl_no_nl: "0x0A \<notin> set s \<Longrightarrow> split_nl s = [s]"
  by (induction s) auto

lemma process_lines_append:
  "process_lines P a (xs @ ys) ui = process_lines P a ys (process_lines P a xs ui)"
  by (induction xs arbitrary: ui) auto

lemma read_loop_chunks:
  "0x0A \<notin> set buf \<Longrightarrow>
   read_loop P a (map Chunk cs) d buf ui =
     (None, process_lines P a (butlast (split_nl (buf @ decode_all P d cs))) ui)"
proof (induction cs arbitrary: d buf ui)
  case Nil
  then show ?case by (simp add: split_nl_no_nl)
next
  case (Cons v cs)
  obtain t d' where dec: "decode P d v = (t, d')" by (cases "decode P d v")
  let ?lines = "split_nl (buf @ t)"
  have "read_loop P a (map Chunk (v # cs)) d buf ui =
        read_loop P a (map Chunk cs) d' (last ?lines) (process_lines P a (butlast ?lines) ui)"
    using dec by (simp add: Let_def pop_or_empty_def after_pop_def split_nl_nonempty)
  also have "\<dots> = (None, process_lines P a (butlast (split_nl (last ?lines @ decode_all P d' cs)))
                      (process_lines P a (butlast ?lines) ui))"
    by (rule Cons.IH) (rule last_split_nl_no_nl)
  finally have run: "read_loop P a (map Chunk (v # cs)) d buf ui =
      (None, process_lines P a
         (butlast ?lines @ butlast (split_nl (last ?lines @ decode_all P d' cs))) ui)"
    by (simp add: process_lines_append)
  have "butlast ?lines @ butlast (split_nl (last ?lines @ decode_all P d' cs)) =
             butlast (split_nl (buf @ decode_all P d (v # cs)))"
    using dec split_nl_append [of "buf @ t" "decode_all P d' cs"]
    by (simp add: butlast_append split_nl_nonempty)
  with run show ?case by simp
qed

lemma decode_all_streaming:
  assumes "streaming_decoder P"
  shows "decode_all P d cs = fst (decode P d (concat cs))"
proof (induction cs arbitrary: d)
  case Nil
  show ?case using assms by (simp add: streaming_decoder_def)
next
  case (Cons v cs)
  from assms have "decode P d (v @ concat cs) =
         (case decode P d v of (s1, d1) \<Rightarrow> case decode P d1 (concat cs) of (s2, d2) \<Rightarrow> (s1 @ s2, d2))"
    unfolding streaming_decoder_def by blast
  then show ?case using Cons.IH by (auto split: prod.splits)
qed

section \<open>The decode loop: one line\<close>

lemma dropWhile_hd_id: "xs = [] \<or> \<not> P (hd xs) \<Longrightarrow> dropWhile P xs = xs"
  by (cases xs) auto

lemma hd_dropWhile_not: "dropWhile P s = [] \<or> \<not> P (hd (dropWhile P s))"
  using hd_dropWhile [of P s] by blast

lemma strip_end_prefix: "xs = rev (dropWhile P (rev xs)) @ rev (takeWhile P (rev xs))"
proof -
  have "rev (takeWhile P (rev xs) @ dropWhile P (rev xs)) = rev (rev xs)"
    by (simp only: takeWhile_dropWhile_id)
  then show ?thesis by (simp only: rev_append rev_rev_ident)
qed

lemma dropWhile_strip_end:
  assumes "xs = [] \<or> \<not> P (hd xs)"
  shows "dropWhile P (rev (dropWhile P (rev xs))) = rev (dropWhile P (rev xs))"
proof (rule dropWhile_hd_id, cases "rev (dropWhile P (rev xs)) = []")
  case True
  then show "rev (dropWhile P (rev xs)) = [] \<or> \<not> P (hd (rev (dropWhile P (rev xs))))" by blast
next
  case False
  then have "hd xs = hd (rev (dropWhile P (rev xs)))"
    using strip_end_prefix [of xs P] by (metis hd_append2)
  moreover from False have "xs \<noteq> []" by auto
  ultimately show "rev (dropWhile P (rev xs)) = [] \<or> \<not> P (hd (rev (dropWhile P (rev xs))))"
    using assms by auto
qed

lemma trim_idem: "trim (trim s) = trim s"
  using dropWhile_strip_end [where P = is_ws and xs = "dropWhile is_ws s"] hd_dropWhile_not [of is_ws s]
  by (simp add: trim_def)

lemma startsWith_append: "startsWith (p @ s) p"
  by (simp add: startsWith_def)

lemma marker_length: "length (js ''data: '') = 6"
  by (simp add: js_def)

lemma startsWith_marker: "startsWith line (js ''data: '') \<Longrightarrow> line = js ''data: '' @ slice_str 6 line"
  unfolding startsWith_def slice_str_def marker_length
  by (metis append_take_drop_id)

lemma slice_marker: "slice_str 6 (js ''data: '' @ p) = p"
  by (simp add: slice_str_def js_def)

lemma process_line_marker:
  "process_line P a (js ''data: '' @ p) ui =
     (let data = trim p in
      if data \<noteq> [] then
        (let ui1 = ui\<lparr>isWaitingForResponse := False\<rparr> in
         case json_parse P data of
           None \<Rightarrow> append_content a data ui1
         | Some JNull \<Rightarrow> append_content a data ui1
         | Some chunk \<Rightarrow>
             if truthy P (get_prop chunk (js ''content'')) \<and> \<not> truthy P (finish_reason chunk)
             then append_content a (to_str_opt P (get_prop chunk (js ''content''))) ui1
             else ui1)
      else ui)"
  unfolding process_line_def slice_marker using startsWith_append by simp

lemma process_line_no_marker:
  "\<not> startsWith line (js ''data: '') \<Longrightarrow> process_line P a line ui = ui"
  by (simp add: process_line_def)

text \<open>
  C10. For a line that starts with the marker, the loop works on the trimmed payload only:
  the line has the effect of the marker followed by the trimmed payload; when nothing is
  left after trimming, the state is unchanged (no delta, no transcript update); and when
  the trimmed payload is not JSON, it is the trimmed payload that is appended.
\<close>

theorem payload_trimmed_before_processing:
  assumes "startsWith line (js ''data: '')"
  shows "process_line P a line ui = process_line P a (js ''data: '' @ trim (slice_str 6 line)) ui
    \<and> (trim (slice_str 6 line) = [] \<longrightarrow> process_line P a line ui = ui)
    \<and> (trim (slice_str 6 line) \<noteq> [] \<and> json_parse P (trim (slice_str 6 line)) = None \<longrightarrow>
         process_line P a line ui =
           append_content a (trim (slice_str 6 line)) (ui\<lparr>isWaitingForResponse := False\<rparr>))"
proof -
  from assms have l: "line = js ''data: '' @ slice_str 6 line" by (rule startsWith_marker)
  have "process_line P a (js ''data: '' @ slice_str 6 line) ui =
        process_line P a (js ''data: '' @ trim (slice_str 6 line)) ui"
    by (simp only: process_line_marker trim_idem)
  moreover have "trim (slice_str 6 line) = [] \<longrightarrow> process_line P a (js ''data: '' @ slice_str 6 line) ui = ui"
    by (simp add: process_line_marker)
  moreover have "trim (slice_str 6 line) \<noteq> [] \<and> json_parse P (trim (slice_str 6 line)) = None \<longrightarrow>
         process_line P a (js ''data: '' @ slice_str 6 line) ui =
           append_content a (trim (slice_str 6 line)) (ui\<lparr>isWaitingForResponse := False\<rparr>)"
    by (simp add: process_line_marker)
  ultimately show ?thesis using l by simp
qed

theorem payload_trimmed_before_processing_witness:
  "process_line hello_platform (js ''m2'') (js ''data:   hello  '') streaming_chat =
     streaming_chat\<lparr>messages := [\<lparr>msg_id = js ''m1'', msg_type = Human, content = js ''hi''\<rparr>,
                       \<lparr>msg_id = js ''m2'', msg_type = Ai, content = js ''hello''\<rparr>],
         isWaitingForResponse := False, applied := [js ''hello'']\<rparr>
   \<and> process_line hello_platform (js ''m2'') (js ''data:    '') streaming_chat = streaming_chat"
  using payload_trimmed_before_processing [of "js ''data:   hello  ''" hello_platform "js ''m2''" streaming_chat]
    payload_trimmed_before_processing [of "js ''data:    ''" hello_platform "js ''m2''" streaming_chat]
  by (simp add: streaming_chat_def hello_platform_def startsWith_def slice_str_def trim_def is_ws_def
      table_platform_def js_def append_content_def process_line_def Let_def)

lemma read_loop_chunks_no_error: "fst (read_loop P a (map Chunk cs) d buf ui) = None"
  by (induction cs arbitrary: d buf ui) (auto simp add: Let_def split: prod.splits)

text \<open>
  C8, as the code has it. A marker line whose trimmed payload is not empty and not JSON
  appends the trimmed payload to the assistant message as a delta, the loop goes on with
  the next line, and a stream of chunks never ends the loop with an error.
\<close>

theorem non_json_line_appends_trimmed_payload:
  assumes "startsWith line (js ''data: '')"
    and "trim (slice_str 6 line) \<noteq> []"
    and "json_parse P (trim (slice_str 6 line)) = None"
  shows "process_lines P a (line # rest) ui =
           process_lines P a rest
             (append_content a (trim (slice_str 6 line)) (ui\<lparr>isWaitingForResponse := False\<rparr>))
         \<and> fst (read_loop P a (map Chunk cs) d buf ui) = None"
proof -
  from assms(1) have l: "line = js ''data: '' @ slice_str 6 line" by (rule startsWith_marker)
  have "process_line P a (js ''data: '' @ slice_str 6 line) ui =
          append_content a (trim (slice_str 6 line)) (ui\<lparr>isWaitingForResponse := False\<rparr>)"
    using assms(2,3) by (simp add: process_line_marker)
  with l show ?thesis by (simp add: read_loop_chunks_no_error)
qed

lemmas line_eval = table_platform_def js_def process_line_def startsWith_def slice_str_def
  trim_def is_ws_def append_content_def

theorem non_json_line_appends_trimmed_payload_witness:
  "process_lines (table_platform []) (js ''m2'') [js ''data: not-json''] streaming_chat =
     streaming_chat\<lparr>messages := [\<lparr>msg_id = js ''m1'', msg_type = Human, content = js ''hi''\<rparr>,
                       \<lparr>msg_id = js ''m2'', msg_type = Ai, content = js ''not-json''\<rparr>],
         isWaitingForResponse := False, applied := [js ''not-json'']\<rparr>"
  using non_json_line_appends_trimmed_payload [of "js ''data: not-json''" "table_platform []" "js ''m2''" "[]" streaming_chat "[]" "()" "[]"]
  by (simp add: streaming_chat_def line_eval)

text \<open>
  C8 as stated fails on payloads with white space around them. The payload of
  \<^verbatim>\<open>data:  not-json \<close> is not JSON, and the delta appended is \<^verbatim>\<open>not-json\<close>, not the
  payload as received; the payload of a marker line that holds only blanks is not JSON
  either, and that line is dropped without any effect.
\<close>

theorem non_json_payload_not_verbatim_counterexample:
  "json_parse (table_platform []) (slice_str 6 (js ''data:  not-json '')) = None
   \<and> slice_str 6 (js ''data:  not-json '') = js '' not-json ''
   \<and> applied (process_line (table_platform []) (js ''m2'') (js ''data:  not-json '') streaming_chat)
       = [js ''not-json'']
   \<and> js ''not-json'' \<noteq> js '' not-json ''
   \<and> json_parse (table_platform []) (slice_str 6 (js ''data:   '')) = None
   \<and> process_line (table_platform []) (js ''m2'') (js ''data:   '') streaming_chat = streaming_chat"
  by (simp add: streaming_chat_def line_eval Let_def)

section \<open>The transcript keeps its order\<close>

lemma ocg_refl: "only_content_grows a m m"
  by (simp add: only_content_grows_def)

lemma ocg_trans:
  "only_content_grows a m1 m2 \<Longrightarrow> only_content_grows a m2 m3 \<Longrightarrow> only_content_grows a m1 m3"
  unfolding only_content_grows_def
  by (auto split: if_splits) (metis append_eq_conv_conj append_take_drop_id append.assoc)

lemma ocg_list_refl: "list_all2 (only_content_grows a) ms ms"
  by (simp add: list_all2_refl ocg_refl)

lemma ocg_list_trans:
  "list_all2 (only_content_grows a) xs ys \<Longrightarrow> list_all2 (only_content_grows a) ys zs \<Longrightarrow>
   list_all2 (only_content_grows a) xs zs"
  by (rule list_all2_trans [where ?P1.0 = "only_content_grows a" and ?P2.0 = "only_content_grows a"])
     (auto intro: ocg_trans)

lemma ocg_append_content:
  "list_all2 (only_content_grows a) (messages ui) (messages (append_content a t ui))"
  by (simp add: append_content_def list_all2_map2 list_all2_refl only_content_grows_def)

lemma messages_waiting [simp]: "messages (ui\<lparr>isWaitingForResponse := b\<rparr>) = messages ui"
  by simp

lemma ocg_append_content_waiting:
  "list_all2 (only_content_grows a) (messages ui)
     (messages (append_content a t (ui\<lparr>isWaitingForResponse := False\<rparr>)))"
  using ocg_append_content [of a "ui\<lparr>isWaitingForResponse := False\<rparr>" t] by simp

lemma ocg_process_line:
  "list_all2 (only_content_grows a) (messages ui) (messages (process_line P a line ui))"
  unfolding process_line_def Let_def
  by (auto simp add: ocg_list_refl ocg_append_content_waiting split: option.splits json.splits)

lemma ocg_process_lines:
  "list_all2 (only_content_grows a) (messages ui) (messages (process_lines P a ls ui))"
proof (induction ls arbitrary: ui)
  case Nil
  show ?case by (simp add: ocg_list_refl)
next
  case (Cons l ls)
  show ?case
    using ocg_list_trans [OF ocg_process_line [of a ui P l] Cons.IH [of "process_line P a l ui"]]
    by simp
qed

lemma ocg_read_loop:
  "list_all2 (only_content_grows a) (messages ui) (messages (snd (read_loop P a rs d buf ui)))"
proof (induction P a rs d buf ui rule: read_loop.induct)
  case (1 P a d buf ui)
  show ?case by (simp add: ocg_list_refl)
next
  case (2 P a rest d buf ui)
  show ?case by (simp add: ocg_list_refl)
next
  case (3 P a v rest d buf ui)
  obtain t d' where dec: "decode P d v = (t, d')" by (cases "decode P d v")
  let ?lines = "split_nl (buf @ t)"
  have "list_all2 (only_content_grows a) (messages (process_lines P a (after_pop ?lines) ui))
     (messages (snd (read_loop P a rest d' (pop_or_empty ?lines)
                       (process_lines P a (after_pop ?lines) ui))))"
    using "3.IH" [OF dec [symmetric] refl] .
  then show ?case
    using dec ocg_list_trans [OF ocg_process_lines [of a ui P "after_pop ?lines"]]
    by (simp add: Let_def)
qed

lemma messages_stop [simp]: "messages (stop_streaming ui) = messages ui"
  by (simp add: stop_streaming_def)

text \<open>
  C9. Whatever the server answers and wherever the stream ends or breaks,
  \<open>handleSendMessage\<close> leaves the transcript as the old messages followed by the user
  message and the assistant message, position by position: ids and types are the same,
  every message other than the addressed one is unchanged, and the content of the
  addressed one has only been extended.
\<close>

theorem streaming_preserves_transcript_order:
  "list_all2 (only_content_grows aiMessageId)
     (messages ui @ [\<lparr>msg_id = userMessageId, msg_type = Human, content = text\<rparr>,
                     \<lparr>msg_id = aiMessageId, msg_type = Ai, content = []\<rparr>])
     (messages (fst (snd (handleSendMessage P srv threadId userMessageId aiMessageId text (ui, w)))))"
proof -
  let ?ui2 = "ui\<lparr>messages := messages ui @ [\<lparr>msg_id = userMessageId, msg_type = Human, content = text\<rparr>],
                  isStreaming := True, isWaitingForResponse := True,
                  messages := (messages ui @ [\<lparr>msg_id = userMessageId, msg_type = Human, content = text\<rparr>])
                      @ [\<lparr>msg_id = aiMessageId, msg_type = Ai, content = []\<rparr>]\<rparr>"
  have m: "messages ?ui2 = messages ui @ [\<lparr>msg_id = userMessageId, msg_type = Human, content = text\<rparr>,
                     \<lparr>msg_id = aiMessageId, msg_type = Ai, content = []\<rparr>]"
    by simp
  have loop: "list_all2 (only_content_grows aiMessageId) (messages ?ui2)
          (messages (snd (read_loop P aiMessageId rs (new_decoder P) [] ?ui2)))" for rs
    by (rule ocg_read_loop)
  show ?thesis
    unfolding handleSendMessage_def Let_def fetch_def
    using loop
    by (auto simp add: ocg_list_refl case_prod_beta split: response.splits option.splits)
      
qed

theorem streaming_preserves_transcript_order_witness:
  "list_all2 (only_content_grows (js ''m2''))
     (messages streaming_chat @ [\<lparr>msg_id = js ''m3'', msg_type = Human, content = js ''hi''\<rparr>,
                      \<lparr>msg_id = js ''m2'', msg_type = Ai, content = []\<rparr>])
     (messages (fst (snd (handleSendMessage hello_platform
        (table_server [] (Response 200 None (Some (map Chunk hello_chunks @ [ReadError]))))
        (js ''t1'') (js ''m3'') (js ''m2'') (js ''hi'') (streaming_chat, signed_in)))))"
  by (rule streaming_preserves_transcript_order)

section \<open>The content of the assistant message\<close>

lemma add_text_empty: "add_text a [] ms = ms"
  by (simp add: add_text_def map_idI)

lemma add_text_add_text: "add_text a t2 (add_text a t1 ms) = add_text a (t1 @ t2) ms"
  by (simp add: add_text_def)

lemma messages_append_content: "messages (append_content a t ui) = add_text a t (messages ui)"
  by (simp add: append_content_def add_text_def)

lemma split_nl_line: "0x0A \<notin> set l \<Longrightarrow> split_nl (l @ 0x0A # r) = l # split_nl r"
  by (induction l) (auto split: list.splits simp add: split_nl_nonempty)

lemma split_nl_lines_text:
  "\<forall>l \<in> set ls. 0x0A \<notin> set l \<Longrightarrow> split_nl (lines_text ls) = ls @ [[]]"
  by (induction ls) (simp_all add: lines_text_def split_nl_line)

lemma marker_no_nl: "0x0A \<notin> set (js ''data: '')"
  by (simp add: js_def)

lemma finish_reason_JNull: "\<not> truthy P (finish_reason JNull)"
  by (simp add: finish_reason_def)

lemma process_line_delta:
  assumes "delta_payload P p t"
  shows "messages (process_line P a (js ''data: '' @ p) ui) = add_text a t (messages ui)"
proof -
  from assms obtain chunk where c: "json_parse P (trim p) = Some chunk" "trim p \<noteq> []"
      "get_prop chunk (js ''content'') = Some (JStr t)" "\<not> truthy P (finish_reason chunk)"
    by (auto simp add: delta_payload_def split: option.splits)
  then have "chunk \<noteq> JNull" by auto
  with c show ?thesis
    by (cases chunk)
       (auto simp add: process_line_marker messages_append_content to_str_opt_def add_text_empty Let_def)
qed

lemma process_line_done:
  assumes "done_payload P p"
  shows "messages (process_line P a (js ''data: '' @ p) ui) = messages ui"
proof -
  from assms obtain chunk where c: "json_parse P (trim p) = Some chunk"
      "truthy P (finish_reason chunk)"
    by (auto simp add: done_payload_def split: option.splits)
  then have "chunk \<noteq> JNull" using finish_reason_JNull [of P] by auto
  with c show ?thesis
    by (cases chunk) (auto simp add: process_line_marker Let_def)
qed

lemma process_lines_deltas:
  "list_all2 (delta_payload P) ps ts \<Longrightarrow>
   messages (process_lines P a (map (\<lambda>p. js ''data: '' @ p) ps) ui) =
     add_text a (concat ts) (messages ui)"
proof (induction ps ts arbitrary: ui rule: list_all2_induct)
  case Nil
  show ?case by (simp add: add_text_empty)
next
  case (Cons p ps t ts)
  show ?case
    using Cons.IH [of "process_line P a (js ''data: '' @ p) ui"] process_line_delta [OF Cons.hyps(1), of a ui]
    by (simp add: add_text_add_text)
qed

lemma process_lines_dones:
  "list_all (done_payload P) qs \<Longrightarrow>
   messages (process_lines P a (map (\<lambda>p. js ''data: '' @ p) qs) ui) = messages ui"
  by (induction qs arbitrary: ui) (simp_all add: process_line_done)

lemma delta_no_nl: "list_all2 (delta_payload P) ps ts \<Longrightarrow> \<forall>p \<in> set ps. 0x0A \<notin> set p"
  by (induction ps ts rule: list_all2_induct) (auto simp add: delta_payload_def)

lemma done_no_nl: "list_all (done_payload P) qs \<Longrightarrow> \<forall>p \<in> set qs. 0x0A \<notin> set p"
  by (induction qs) (auto simp add: done_payload_def)


lemmas hello_eval = hello_platform_def hello_chunks_def table_platform_def table_server_def js_def
  bytes_of_def ok_def lines_text_def delta_payload_def done_payload_def trim_def is_ws_def
  finish_reason_def signed_in_def empty_chat_def add_text_def getAuthHeader_def getToken_def falsy_str_def


section \<open>Chunk boundaries\<close>

lemma applied_append_content: "applied (append_content a t ui) = applied ui @ [t]"
  by (simp add: append_content_def)

lemma applied_process_line_delta:
  assumes "delta_payload P p t"
  shows "applied (process_line P a (js ''data: '' @ p) ui) = applied ui @ (if t = [] then [] else [t])"
proof -
  from assms obtain chunk where c: "json_parse P (trim p) = Some chunk" "trim p \<noteq> []"
      "get_prop chunk (js ''content'') = Some (JStr t)" "\<not> truthy P (finish_reason chunk)"
    by (auto simp add: delta_payload_def split: option.splits)
  then have "chunk \<noteq> JNull" by auto
  with c show ?thesis
    by (cases chunk)
       (auto simp add: process_line_marker applied_append_content to_str_opt_def Let_def)
qed

lemma applied_process_line_done:
  assumes "done_payload P p"
  shows "applied (process_line P a (js ''data: '' @ p) ui) = applied ui"
proof -
  from assms obtain chunk where c: "json_parse P (trim p) = Some chunk"
      "truthy P (finish_reason chunk)"
    by (auto simp add: done_payload_def split: option.splits)
  then have "chunk \<noteq> JNull" using finish_reason_JNull [of P] by auto
  with c show ?thesis
    by (cases chunk) (auto simp add: process_line_marker Let_def)
qed

lemma applied_process_lines_deltas:
  "list_all2 (delta_payload P) ps ts \<Longrightarrow>
   applied (process_lines P a (map (\<lambda>p. js ''data: '' @ p) ps) ui) =
     applied ui @ filter (\<lambda>t. t \<noteq> []) ts"
proof (induction ps ts arbitrary: ui rule: list_all2_induct)
  case Nil
  show ?case by simp
next
  case (Cons p ps t ts)
  show ?case
    using Cons.IH [of "process_line P a (js ''data: '' @ p) ui"]
      applied_process_line_delta [OF Cons.hyps(1), of a ui]
    by simp
qed

lemma applied_process_lines_dones:
  "list_all (done_payload P) qs \<Longrightarrow>
   applied (process_lines P a (map (\<lambda>p. js ''data: '' @ p) qs) ui) = applied ui"
  by (induction qs arbitrary: ui) (simp_all add: applied_process_line_done)

text \<open>
  C2. With a streaming decoder, however the bytes are cut into chunks: two cuts of the
  same bytes leave the loop with the same result; the loop ends without error after
  handling, once and in order, exactly the complete lines of the text the whole byte
  sequence decodes to; and when that text is N delta lines followed by completion lines,
  the deltas appended are the N delta texts in order (an empty text appends nothing) and
  the assistant message has grown by their concatenation. A marker or a payload cut by a
  chunk boundary is therefore read as the one line it belongs to, neither misread nor
  dropped.
\<close>

theorem read_loop_chunking_invariant:
  assumes dec: "streaming_decoder P" and same: "concat cs = concat cs'"
  shows "read_loop P a (map Chunk cs) (new_decoder P) [] ui =
           read_loop P a (map Chunk cs') (new_decoder P) [] ui
    \<and> read_loop P a (map Chunk cs) (new_decoder P) [] ui =
        (None, process_lines P a
                 (butlast (split_nl (fst (decode P (new_decoder P) (concat cs))))) ui)
    \<and> (fst (decode P (new_decoder P) (concat cs)) =
          lines_text (map (\<lambda>p. js ''data: '' @ p) (ps @ qs))
        \<and> list_all2 (delta_payload P) ps ts \<and> list_all (done_payload P) qs \<longrightarrow>
        fst (read_loop P a (map Chunk cs) (new_decoder P) [] ui) = None
        \<and> messages (snd (read_loop P a (map Chunk cs) (new_decoder P) [] ui)) =
            add_text a (concat ts) (messages ui)
        \<and> applied (snd (read_loop P a (map Chunk cs) (new_decoder P) [] ui)) =
            applied ui @ filter (\<lambda>t. t \<noteq> []) ts)"
proof -
  let ?text = "fst (decode P (new_decoder P) (concat cs))"
  have run: "read_loop P a (map Chunk cs) (new_decoder P) [] ui =
               (None, process_lines P a (butlast (split_nl ?text)) ui)"
    using dec by (simp add: read_loop_chunks decode_all_streaming)
  have run': "read_loop P a (map Chunk cs') (new_decoder P) [] ui =
               (None, process_lines P a (butlast (split_nl ?text)) ui)"
    using dec same by (simp add: read_loop_chunks decode_all_streaming)
  have out: "messages (process_lines P a (butlast (split_nl ?text)) ui) =
               add_text a (concat ts) (messages ui)
           \<and> applied (process_lines P a (butlast (split_nl ?text)) ui) =
               applied ui @ filter (\<lambda>t. t \<noteq> []) ts"
    if t: "?text = lines_text (map (\<lambda>p. js ''data: '' @ p) (ps @ qs))"
      and deltas: "list_all2 (delta_payload P) ps ts" and dones: "list_all (done_payload P) qs"
  proof -
    let ?ls = "map (\<lambda>p. js ''data: '' @ p) (ps @ qs)"
    have nonl: "\<forall>l \<in> set ?ls. 0x0A \<notin> set l"
      using delta_no_nl [OF deltas] done_no_nl [OF dones] marker_no_nl by auto
    have ls: "butlast (split_nl ?text) = ?ls"
      unfolding t by (simp only: split_nl_lines_text [OF nonl] butlast_snoc)
    show ?thesis
      unfolding ls
      using process_lines_dones [OF dones] process_lines_deltas [OF deltas]
        applied_process_lines_dones [OF dones] applied_process_lines_deltas [OF deltas]
      by (simp add: process_lines_append)
  qed
  show ?thesis using run run' out by simp
qed

theorem read_loop_chunking_invariant_witness:
  "read_loop hello_platform (js ''m2'') (map Chunk hello_chunks) () [] streaming_chat =
     read_loop hello_platform (js ''m2'') (map Chunk [concat hello_chunks]) () [] streaming_chat
   \<and> fst (read_loop hello_platform (js ''m2'') (map Chunk hello_chunks) () [] streaming_chat) = None
   \<and> messages (snd (read_loop hello_platform (js ''m2'') (map Chunk hello_chunks) () []
                       streaming_chat))
       = [\<lparr>msg_id = js ''m1'', msg_type = Human, content = js ''hi''\<rparr>,
          \<lparr>msg_id = js ''m2'', msg_type = Ai, content = js ''Hello''\<rparr>]
   \<and> applied (snd (read_loop hello_platform (js ''m2'') (map Chunk hello_chunks) () []
                      streaming_chat))
       = [js ''Hel'', js ''lo'']"
proof -
  have d: "streaming_decoder hello_platform"
    by (simp add: streaming_decoder_def hello_platform_def table_platform_def)
  have c: "concat hello_chunks = concat [concat hello_chunks]"
    by simp
  have t: "fst (decode hello_platform (new_decoder hello_platform) (concat hello_chunks)) =
       lines_text (map (\<lambda>p. js ''data: '' @ p)
         ([js ''{\"content\":\"Hel\"}'', js ''{\"content\":\"lo\"}''] @
          [js ''{\"content\":\"\",\"metadata\":{\"finish_reason\":\"stop\"}}'']))"
    by (simp add: hello_eval)
  have ds: "list_all2 (delta_payload hello_platform)
       [js ''{\"content\":\"Hel\"}'', js ''{\"content\":\"lo\"}''] [js ''Hel'', js ''lo'']"
    by (simp add: hello_eval)
  have qs: "list_all (done_payload hello_platform)
       [js ''{\"content\":\"\",\"metadata\":{\"finish_reason\":\"stop\"}}'']"
    by (simp add: hello_eval)
  have n: "new_decoder hello_platform = ()"
    by simp
  note inst = read_loop_chunking_invariant [OF d c, of "js ''m2''" streaming_chat
        "[js ''{\"content\":\"Hel\"}'', js ''{\"content\":\"lo\"}'']"
        "[js ''{\"content\":\"\",\"metadata\":{\"finish_reason\":\"stop\"}}'']"
        "[js ''Hel'', js ''lo'']", unfolded n]
  let ?run = "read_loop hello_platform (js ''m2'') (map Chunk hello_chunks) () [] streaming_chat"
  from inst have same: "?run =
      read_loop hello_platform (js ''m2'') (map Chunk [concat hello_chunks]) () [] streaming_chat"
    by blast
  from inst t [unfolded n] ds qs have out: "fst ?run = None
      \<and> messages (snd ?run) = add_text (js ''m2'') (concat [js ''Hel'', js ''lo'']) (messages streaming_chat)
      \<and> applied (snd ?run) = applied streaming_chat @ filter (\<lambda>t. t \<noteq> []) [js ''Hel'', js ''lo'']"
    by blast
  have "fst ?run = None"
    and "messages (snd ?run) =
          [\<lparr>msg_id = js ''m1'', msg_type = Human, content = js ''hi''\<rparr>,
           \<lparr>msg_id = js ''m2'', msg_type = Ai, content = js ''Hello''\<rparr>]"
    and "applied (snd ?run) = [js ''Hel'', js ''lo'']"
    using out by (simp_all add: add_text_def streaming_chat_def js_def del: read_loop.simps)
  with same show ?thesis by blast
qed

section \<open>The stream request and the refresh\<close>

text \<open>
  C4, as the code has it. The stream request carries the stored access token, when there
  is one, and is sent once. When it is answered with 401 the turn ends with the error
  of a failed start: the only request sent is the stream request, the stored tokens are
  untouched, and the assistant message stays in the transcript with empty content.
\<close>

theorem stream_401_no_refresh_no_retry:
  assumes "srv (requests w) (PostStream (getAuthHeader w) threadId text) = Response 401 j b"
  shows "handleSendMessage P srv threadId userMessageId aiMessageId text (ui, w) =
     (Some FailedToStartStreaming,
      ui\<lparr>messages := messages ui @ [\<lparr>msg_id = userMessageId, msg_type = Human, content = text\<rparr>,
                                     \<lparr>msg_id = aiMessageId, msg_type = Ai, content = []\<rparr>],
         isStreaming := False, isWaitingForResponse := False\<rparr>,
      w\<lparr>requests := requests w @ [PostStream (getAuthHeader w) threadId text]\<rparr>)"
  using assms not_ok_401
  by (simp add: handleSendMessage_def fetch_def Let_def stop_streaming_def)

theorem stream_401_no_refresh_no_retry_witness:
  "handleSendMessage hello_platform (table_server [] (Response 401 None None))
      (js ''t1'') (js ''m1'') (js ''m2'') (js ''hi'') (empty_chat, signed_in)
   = (Some FailedToStartStreaming,
      \<lparr>messages = [\<lparr>msg_id = js ''m1'', msg_type = Human, content = js ''hi''\<rparr>,
                   \<lparr>msg_id = js ''m2'', msg_type = Ai, content = []\<rparr>],
       isStreaming = False, isWaitingForResponse = False, applied = []\<rparr>,
      \<lparr>access_token = Some (js ''a0''), refresh_token = Some (js ''r0''),
       requests = [PostStream (Some (js ''a0'')) (js ''t1'') (js ''hi'')]\<rparr>)"
  using stream_401_no_refresh_no_retry [of "table_server [] (Response 401 None None)" signed_in "js ''t1''" "js ''hi''"
      None None hello_platform "js ''m1''" "js ''m2''" empty_chat]
  by (simp add: table_server_def signed_in_def empty_chat_def getAuthHeader_def getToken_def
      falsy_str_def js_def)

text \<open>
  C4 as stated fails: with a refresh token stored and a server that would accept the
  refresh and the retried stream request, a 401 on the stream request is followed by no
  refresh and no second stream request.
\<close>

theorem stream_401_not_guarded_counterexample:
  "getRefreshToken signed_in = Some (js ''r0'')
   \<and> handleSendMessage hello_platform
      (table_server
         [(PostStream (Some (js ''a0'')) (js ''t1'') (js ''hi''), Response 401 None None),
          (PostRefresh (js ''r0''), Response 200 (Some (token_pair ''a1'' ''r1'')) None)]
         (Response 200 None (Some (map Chunk hello_chunks))))
      (js ''t1'') (js ''m1'') (js ''m2'') (js ''hi'') (empty_chat, signed_in)
   = (Some FailedToStartStreaming,
      \<lparr>messages = [\<lparr>msg_id = js ''m1'', msg_type = Human, content = js ''hi''\<rparr>,
                   \<lparr>msg_id = js ''m2'', msg_type = Ai, content = []\<rparr>],
       isStreaming = False, isWaitingForResponse = False, applied = []\<rparr>,
      \<lparr>access_token = Some (js ''a0''), refresh_token = Some (js ''r0''),
       requests = [PostStream (Some (js ''a0'')) (js ''t1'') (js ''hi'')]\<rparr>)"
  by (simp add: handleSendMessage_def fetch_def Let_def stop_streaming_def table_server_def
      signed_in_def empty_chat_def getAuthHeader_def getToken_def getRefreshToken_def
      falsy_str_def js_def ok_def)

end
